theory Spec2Isabelle
  imports Main
begin

section \<open>Data model of \<^verbatim>\<open>useRailwayProviderValue.ts\<close>\<close>

text \<open>
  A track position is a pair of grid coordinates. The source types it as a pair of
  JavaScript numbers; the grid is an integer grid, so a coordinate is an \<open>int\<close>.
  The \<^verbatim>\<open>render\<close> payload of a track is never inspected and is a type parameter.
\<close>

type_synonym TrackPosition = "int \<times> int"

record 'r TrackDefinition =
  position :: TrackPosition
  render :: 'r

text \<open>\<^verbatim>\<open>TrackIterDefinition = { id: string } & TrackDefinition\<close>.\<close>

record 'r TrackIterDefinition = "'r TrackDefinition" +
  id_track :: string

text \<open>
  A JavaScript \<^verbatim>\<open>Map\<close> keeps its entries in insertion order, one entry per key. It is
  an association list here; \<open>Map_set\<close> overwrites the value of a key in place and
  appends a new key at the end, as \<^verbatim>\<open>Map.prototype.set\<close> does.
\<close>

type_synonym ('k, 'v) Map = "('k \<times> 'v) list"

type_synonym 'r TrackMap = "(string, 'r TrackDefinition) Map"

definition Map_has :: "('k, 'v) Map \<Rightarrow> 'k \<Rightarrow> bool" where
  "Map_has m k = (k \<in> set (map fst m))"

definition Map_get :: "('k, 'v) Map \<Rightarrow> 'k \<Rightarrow> 'v option" where
  "Map_get m k = map_of m k"

definition Map_keys :: "('k, 'v) Map \<Rightarrow> 'k list" where
  "Map_keys m = map fst m"

fun Map_set :: "'k \<Rightarrow> 'v \<Rightarrow> ('k, 'v) Map \<Rightarrow> ('k, 'v) Map" where
  "Map_set k v [] = [(k, v)]"
| "Map_set k v (p # ps) = (if fst p = k then (k, v) # ps else p # Map_set k v ps)"

definition Map_delete :: "'k \<Rightarrow> ('k, 'v) Map \<Rightarrow> ('k, 'v) Map" where
  "Map_delete k m = filter (\<lambda>p. fst p \<noteq> k) m"

section \<open>\<^verbatim>\<open>getTracksFromMap\<close>: merging the default tracks with the user maps\<close>

text \<open>
  The scan of \<^verbatim>\<open>existingPositions\<close>:
  \<^verbatim>\<open>index = existingPositions.length; while (index--) { positionRef = existingPositions[index]; ... }\<close>.
  It answers whether some recorded position equals the candidate's.
\<close>

primrec scanPositions :: "TrackPosition list \<Rightarrow> nat \<Rightarrow> TrackPosition \<Rightarrow> bool" where
  "scanPositions existingPositions 0 p = False"
| "scanPositions existingPositions (Suc index) p =
     (if fst (existingPositions ! index) = fst p \<and> snd (existingPositions ! index) = snd p
      then True
      else scanPositions existingPositions index p)"

text \<open>
  The body of the inner \<^verbatim>\<open>forEach\<close>: a name already in \<^verbatim>\<open>unionMap\<close> is skipped, a
  position found in \<^verbatim>\<open>existingPositions\<close> is skipped, anything else is added.
  The two skips print a warning, which is not part of the value computed.
\<close>

definition addTrack ::
  "TrackPosition list \<Rightarrow> 'r TrackMap \<Rightarrow> string \<times> 'r TrackDefinition \<Rightarrow> 'r TrackMap" where
  "addTrack existingPositions unionMap entry =
     (if Map_has unionMap (fst entry) then unionMap
      else if scanPositions existingPositions (length existingPositions) (position (snd entry))
      then unionMap
      else Map_set (fst entry) (snd entry) unionMap)"

definition toIter :: "string \<times> 'r TrackDefinition \<Rightarrow> 'r TrackIterDefinition" where
  "toIter e = \<lparr>position = position (snd e), render = render (snd e), id_track = fst e\<rparr>"

text \<open>
  \<^verbatim>\<open>existingPositions\<close> is computed once, from the copy of \<^verbatim>\<open>mapA\<close>, before the loops;
  the loops never add to it.
\<close>

definition getTracksFromMap ::
  "'r TrackMap \<Rightarrow> (string, 'r TrackMap) Map \<Rightarrow> 'r TrackIterDefinition list" where
  "getTracksFromMap mapA setOfUserMaps =
     (let unionMap = mapA;
          existingPositions = map (\<lambda>i. position i) (map snd unionMap)
      in map toIter
           (foldl (\<lambda>u mapB. foldl (addTrack existingPositions) u mapB)
                  unionMap (map snd setOfUserMaps)))"

definition findById :: "string \<Rightarrow> 'r TrackIterDefinition \<Rightarrow> bool" where
  "findById i track = (id_track track = i)"

section \<open>The state of the hook and its derived values\<close>

text \<open>
  The hook keeps \<^verbatim>\<open>journeyStack\<close>, \<^verbatim>\<open>currentPosition\<close> and \<^verbatim>\<open>userDefinedTrackMaps\<close>
  as state and the context map in a mutable reference. A context is any value or
  \<^verbatim>\<open>undefined\<close> (\<open>None\<close>); the context map stores it under the track's id, so a key
  can be present with the value \<^verbatim>\<open>undefined\<close>. The default tracks are the hook's
  argument and a parameter of every operation below.
\<close>

record ('r, 'c) railway =
  journeyStack :: "string list"
  currentPosition :: TrackPosition
  userDefinedTrackMaps :: "(string, 'r TrackMap) Map"
  contextMap :: "string \<rightharpoonup> 'c option"

definition initial :: "('r, 'c) railway" where
  "initial = \<lparr>journeyStack = [''start''], currentPosition = (0, 0),
              userDefinedTrackMaps = [], contextMap = Map.empty\<rparr>"

definition allTracksAsList :: "'r TrackMap \<Rightarrow> ('r, 'c) railway \<Rightarrow> 'r TrackIterDefinition list" where
  "allTracksAsList defaultTracks s = getTracksFromMap defaultTracks (userDefinedTrackMaps s)"

text \<open>
  The function passed to \<^verbatim>\<open>useMemo\<close> for \<^verbatim>\<open>currentTrack\<close>, applied to the track list and
  the current position it reads. When the hook runs it is said further down.
\<close>

definition currentTrack_body ::
  "'r TrackIterDefinition list \<Rightarrow> TrackPosition \<Rightarrow> 'r TrackIterDefinition option" where
  "currentTrack_body tracks cp =
     find (\<lambda>item. fst (position item) = fst cp \<and> snd (position item) = snd cp) tracks"

text \<open>
  \<^verbatim>\<open>journeyStack[journeyStack.length - 2] || null\<close>: reading before the start of the
  array gives \<^verbatim>\<open>undefined\<close>, and the empty string is falsy, so both give \<^verbatim>\<open>null\<close>.
\<close>

definition previousTrackId :: "string list \<Rightarrow> string option" where
  "previousTrackId js =
     (if length js < 2 then None
      else if js ! (length js - 2) = '''' then None
      else Some (js ! (length js - 2)))"

datatype ReturnDirection = Left | Right | Top

text \<open>
  The function passed to \<^verbatim>\<open>useMemo\<close> for \<^verbatim>\<open>returnDirection\<close>, applied to the values
  it reads: the journey stack, the track list, the memoised current track and the current
  position. \<open>None\<close> is \<^verbatim>\<open>null\<close>.
\<close>

definition returnDirection_body ::
  "string list \<Rightarrow> 'r TrackIterDefinition list \<Rightarrow> 'r TrackIterDefinition option
     \<Rightarrow> TrackPosition \<Rightarrow> ReturnDirection option" where
  "returnDirection_body js tracks cur cp =
     (case previousTrackId js of
        None \<Rightarrow> None
      | Some pid \<Rightarrow>
          (case find (findById pid) tracks of
             None \<Rightarrow> None
           | Some previousTrack \<Rightarrow>
               (case cur of
                  None \<Rightarrow> None
                | Some c \<Rightarrow>
                    (let dX = fst (position previousTrack) - fst cp
                     in if dX < 0 then Some Left
                        else if dX > 0 then Some Right
                        else Some Top))))"

section \<open>The actions\<close>

text \<open>
  An action returns the next state and what it printed with \<^verbatim>\<open>console.error\<close>.
  No action throws.
\<close>

datatype diagnostic = NotAValidTrack string

definition navigateToView ::
  "'r TrackMap \<Rightarrow> string \<Rightarrow> 'c option \<Rightarrow> ('r, 'c) railway \<Rightarrow> ('r, 'c) railway \<times> diagnostic list" where
  "navigateToView defaultTracks i ctx s =
     (case find (findById i) (allTracksAsList defaultTracks s) of
        None \<Rightarrow> (s, [NotAValidTrack i])
      | Some matchingTrack \<Rightarrow>
          (s\<lparr>contextMap := (contextMap s)(id_track matchingTrack \<mapsto> ctx),
             journeyStack := journeyStack s @ [id_track matchingTrack],
             currentPosition := position matchingTrack\<rparr>, []))"

definition returnToLast ::
  "'r TrackMap \<Rightarrow> ('r, 'c) railway \<Rightarrow> ('r, 'c) railway \<times> diagnostic list" where
  "returnToLast defaultTracks s =
     (case previousTrackId (journeyStack s) of
        None \<Rightarrow> (s, [])
      | Some pid \<Rightarrow>
          (case find (findById pid) (allTracksAsList defaultTracks s) of
             None \<Rightarrow> (s, [NotAValidTrack pid])
           | Some matchingTrack \<Rightarrow>
               (s\<lparr>journeyStack := butlast (journeyStack s),
                  currentPosition := position matchingTrack\<rparr>, [])))"

text \<open>
  \<^verbatim>\<open>a || b\<close> on an optional number \<open>a\<close>: \<^verbatim>\<open>undefined\<close> and \<open>0\<close> are falsy.
\<close>

definition orElse :: "int option \<Rightarrow> int \<Rightarrow> int" where
  "orElse a b = (case a of None \<Rightarrow> b | Some n \<Rightarrow> if n \<noteq> 0 then n else b)"

definition offsetTrack :: "int \<Rightarrow> int \<Rightarrow> 'r TrackDefinition \<Rightarrow> 'r TrackDefinition" where
  "offsetTrack offsetX offsetY d =
     d\<lparr>position := (offsetX + fst (position d), offsetY + snd (position d))\<rparr>"

definition registerNewTracks ::
  "string \<Rightarrow> 'r TrackMap \<Rightarrow> TrackPosition option \<Rightarrow> ('r, 'c) railway
     \<Rightarrow> ('r, 'c) railway \<times> diagnostic list" where
  "registerNewTracks i initialTrackMap userStartPosition s =
     (let offsetX = orElse (map_option fst userStartPosition)
                      (orElse (Some (fst (currentPosition s))) 0);
          offsetY = orElse (map_option snd userStartPosition)
                      (orElse (Some (snd (currentPosition s))) 0);
          userTargetMap =
            foldl (\<lambda>m e. Map_set (fst e) (offsetTrack offsetX offsetY (snd e)) m)
                  [] initialTrackMap
      in (s\<lparr>userDefinedTrackMaps := Map_set i userTargetMap (userDefinedTrackMaps s)\<rparr>, []))"

text \<open>
  \<^verbatim>\<open>if (!id)\<close> holds for a missing argument and for the empty string.
\<close>

definition deregisterTracks ::
  "string option \<Rightarrow> ('r, 'c) railway \<Rightarrow> ('r, 'c) railway \<times> diagnostic list" where
  "deregisterTracks i s =
     (case i of
        None \<Rightarrow> (s\<lparr>userDefinedTrackMaps := []\<rparr>, [])
      | Some owner \<Rightarrow>
          if owner = '''' then (s\<lparr>userDefinedTrackMaps := []\<rparr>, [])
          else
            (let keysToRemove =
                   (case Map_get (userDefinedTrackMaps s) owner of
                      None \<Rightarrow> []
                    | Some m \<Rightarrow> Map_keys m)
             in (s\<lparr>contextMap := foldl (\<lambda>c key. c(key := None)) (contextMap s) keysToRemove,
                   userDefinedTrackMaps := Map_delete owner (userDefinedTrackMaps s)\<rparr>, [])))"

section \<open>The values the hook publishes\<close>

text \<open>
  \<^verbatim>\<open>currentTrack\<close> and \<^verbatim>\<open>returnDirection\<close> are \<^verbatim>\<open>useMemo\<close> values with the dependency
  lists \<^verbatim>\<open>[currentPosition]\<close> and \<^verbatim>\<open>[journeyStack, currentPosition]\<close>. In a render where
  no dependency is a new object the hook publishes the value it computed in an earlier
  render, whatever the track list has become since. \<^verbatim>\<open>allTracksAsList\<close> depends on
  \<^verbatim>\<open>userDefinedTrackMaps\<close>, which every registration and deregistration replaces by a new
  \<^verbatim>\<open>Map\<close>, so the track list published is always that of the current state.
\<close>

record ('r, 'c) hook =
  state :: "('r, 'c) railway"
  currentTrack :: "'r TrackIterDefinition option"
  returnDirection :: "ReturnDirection option"

text \<open>
  The first render: both functions run, on the initial state.
\<close>

definition mount :: "'r TrackMap \<Rightarrow> ('r, 'c) hook" where
  "mount defaultTracks =
     (let tracks = allTracksAsList defaultTracks (initial :: ('r, 'c) railway);
          cur = currentTrack_body tracks (currentPosition (initial :: ('r, 'c) railway))
      in \<lparr>state = initial, currentTrack = cur,
          returnDirection =
            returnDirection_body (journeyStack (initial :: ('r, 'c) railway)) tracks cur
              (currentPosition (initial :: ('r, 'c) railway))\<rparr>)"

text \<open>
  A render after an action has set the state \<open>s\<close>. \<open>newJourneyStack\<close> and
  \<open>newCurrentPosition\<close> say whether the action has put a new object into that piece of
  state. \<^verbatim>\<open>returnDirection\<close> reads the \<^verbatim>\<open>currentTrack\<close> of the same render.
\<close>

definition rerender ::
  "'r TrackMap \<Rightarrow> bool \<Rightarrow> bool \<Rightarrow> ('r, 'c) railway \<Rightarrow> ('r, 'c) hook \<Rightarrow> ('r, 'c) hook" where
  "rerender defaultTracks newJourneyStack newCurrentPosition s h =
     (let tracks = allTracksAsList defaultTracks s;
          cur = (if newCurrentPosition then currentTrack_body tracks (currentPosition s)
                 else currentTrack h)
      in \<lparr>state = s, currentTrack = cur,
          returnDirection =
            (if newJourneyStack \<or> newCurrentPosition
             then returnDirection_body (journeyStack s) tracks cur (currentPosition s)
             else returnDirection h)\<rparr>)"

text \<open>
  The actions, with the render they cause. An action that returns early sets no state and
  causes no render. \<^verbatim>\<open>setJourneyStack\<close> is always given a new array.
  \<^verbatim>\<open>setCurrentPosition\<close> is given the position array of the track found; React compares
  it with the array held by \<^verbatim>\<open>Object.is\<close>, and whether the two are one object cannot be
  read off the coordinates when these are equal. \<open>sameArray\<close> says so; with different
  coordinates the arrays are different objects.
\<close>

definition hook_navigateToView ::
  "'r TrackMap \<Rightarrow> bool \<Rightarrow> string \<Rightarrow> 'c option \<Rightarrow> ('r, 'c) hook \<Rightarrow> ('r, 'c) hook" where
  "hook_navigateToView defaultTracks sameArray i ctx h =
     (case find (findById i) (allTracksAsList defaultTracks (state h)) of
        None \<Rightarrow> h
      | Some matchingTrack \<Rightarrow>
          rerender defaultTracks True
            (\<not> (sameArray \<and> position matchingTrack = currentPosition (state h)))
            (fst (navigateToView defaultTracks i ctx (state h))) h)"

definition hook_returnToLast ::
  "'r TrackMap \<Rightarrow> bool \<Rightarrow> ('r, 'c) hook \<Rightarrow> ('r, 'c) hook" where
  "hook_returnToLast defaultTracks sameArray h =
     (case previousTrackId (journeyStack (state h)) of
        None \<Rightarrow> h
      | Some pid \<Rightarrow>
          (case find (findById pid) (allTracksAsList defaultTracks (state h)) of
             None \<Rightarrow> h
           | Some matchingTrack \<Rightarrow>
               rerender defaultTracks True
                 (\<not> (sameArray \<and> position matchingTrack = currentPosition (state h)))
                 (fst (returnToLast defaultTracks (state h))) h))"

definition hook_registerNewTracks ::
  "'r TrackMap \<Rightarrow> string \<Rightarrow> 'r TrackMap \<Rightarrow> TrackPosition option \<Rightarrow> ('r, 'c) hook
     \<Rightarrow> ('r, 'c) hook" where
  "hook_registerNewTracks defaultTracks i initialTrackMap userStartPosition h =
     rerender defaultTracks False False
       (fst (registerNewTracks i initialTrackMap userStartPosition (state h))) h"

definition hook_deregisterTracks ::
  "'r TrackMap \<Rightarrow> string option \<Rightarrow> ('r, 'c) hook \<Rightarrow> ('r, 'c) hook" where
  "hook_deregisterTracks defaultTracks i h =
     rerender defaultTracks False False (fst (deregisterTracks i (state h))) h"

section \<open>Reachable states\<close>

text \<open>
  The states the hook can be in: the initial one, and every state an action leads to
  from a reachable state, with any arguments.
\<close>

inductive reachable :: "'r TrackMap \<Rightarrow> ('r, 'c) railway \<Rightarrow> bool" for defaultTracks where
  reach_initial: "reachable defaultTracks initial"
| reach_navigate:
    "reachable defaultTracks s \<Longrightarrow> reachable defaultTracks (fst (navigateToView defaultTracks i ctx s))"
| reach_return:
    "reachable defaultTracks s \<Longrightarrow> reachable defaultTracks (fst (returnToLast defaultTracks s))"
| reach_register:
    "reachable defaultTracks s \<Longrightarrow> reachable defaultTracks (fst (registerNewTracks i m anchor s))"
| reach_deregister:
    "reachable defaultTracks s \<Longrightarrow> reachable defaultTracks (fst (deregisterTracks owner s))"


section \<open>Example data\<close>

text \<open>Tracks without a payload, and the maps and states used as concrete inputs below.\<close>

definition track :: "int \<Rightarrow> int \<Rightarrow> unit TrackDefinition" where
  "track x y = \<lparr>position = (x, y), render = ()\<rparr>"

definition scenario_tracks :: "unit TrackMap" where
  "scenario_tracks = [(''start'', track 0 0), (''left'', track (-1) 0), (''right'', track 1 0)]"

definition blank_tracks :: "unit TrackMap" where
  "blank_tracks = [('''', track 1 0), (''start'', track 0 0)]"

definition visited_left :: "(unit, unit) railway" where
  "visited_left = \<lparr>journeyStack = [''start'', ''left''], currentPosition = (-1, 0),
         userDefinedTrackMaps = [], contextMap = [''left'' \<mapsto> None]\<rparr>"

definition ghost_state :: "(unit, unit) railway" where
  "ghost_state = \<lparr>journeyStack = [''ghost'', ''start''], currentPosition = (0, 0),
         userDefinedTrackMaps = [], contextMap = Map.empty\<rparr>"

definition blank_visit :: "(unit, unit) railway" where
  "blank_visit = \<lparr>journeyStack = [''start'', '''', ''start''], currentPosition = (0, 0),
         userDefinedTrackMaps = [], contextMap = ['''' \<mapsto> None, ''start'' \<mapsto> None]\<rparr>"

definition start_only :: "unit TrackMap" where
  "start_only = [(''start'', track 0 0)]"



definition stale_hook :: "(unit, unit) hook" where
  "stale_hook =
     hook_deregisterTracks start_only (Some ''o'')
       (hook_navigateToView start_only False ''a'' None
          (hook_registerNewTracks start_only ''o'' [(''a'', track 1 0)] None (mount start_only)))"


definition twin_tracks :: "unit TrackMap" where
  "twin_tracks = [(''a'', track 0 0), (''b'', track 0 0)]"

definition twin_overlay :: "(string, unit TrackMap) Map" where
  "twin_overlay = [(''o'', [(''a'', track 1 0), (''b'', track 1 0), (''c'', track 0 0)])]"

definition two_owners_ctx :: "(unit, unit) railway" where
  "two_owners_ctx = \<lparr>journeyStack = [''start'', ''a'', ''b''], currentPosition = (2, 0),
     userDefinedTrackMaps = [('''', [(''a'', track 1 0)]), (''o'', [(''b'', track 2 0)])],
     contextMap = [''a'' \<mapsto> Some (), ''b'' \<mapsto> Some ()]\<rparr>"

definition shadow_state :: "(unit, unit) railway" where
  "shadow_state = \<lparr>journeyStack = [''start'', ''start''], currentPosition = (0, 0),
     userDefinedTrackMaps = [(''o'', [(''start'', track 5 5)])],
     contextMap = [''start'' \<mapsto> Some ()]\<rparr>"

definition one_owner :: "(unit, unit) railway" where
  "one_owner = \<lparr>journeyStack = [''start'', ''b''], currentPosition = (2, 0),
     userDefinedTrackMaps = [(''o'', [(''b'', track 2 0)]), (''p'', [(''c'', track 3 0)])],
     contextMap = [''b'' \<mapsto> Some (), ''c'' \<mapsto> Some ()]\<rparr>"

definition stale_visit :: "(unit, unit) railway" where
  "stale_visit = \<lparr>journeyStack = [''start'', ''ghost'', ''start''], currentPosition = (0, 0),
     userDefinedTrackMaps = [], contextMap = [''start'' \<mapsto> None]\<rparr>"

definition moved_state :: "(unit, unit) railway" where
  "moved_state = \<lparr>journeyStack = [''start'', ''a''], currentPosition = (1, 0),
     userDefinedTrackMaps = [(''o'', [(''a'', track 2 0)])], contextMap = [''a'' \<mapsto> None]\<rparr>"

definition far_tracks :: "unit TrackMap" where
  "far_tracks = [(''start'', track 0 0), (''far'', track 2 3)]"

definition far_state :: "(unit, unit) railway" where
  "far_state = \<lparr>journeyStack = [''start'', ''far''], currentPosition = (2, 3),
     userDefinedTrackMaps = [], contextMap = [''far'' \<mapsto> None]\<rparr>"

section \<open>Facts about the map operations and the merge\<close>

text \<open>The definitions that the evaluation of a concrete input unfolds.\<close>

lemmas eval_defs = allTracksAsList_def getTracksFromMap_def addTrack_def toIter_def Map_has_def
  findById_def initial_def track_def previousTrackId_def

lemmas run_defs = navigateToView_def returnToLast_def registerNewTracks_def deregisterTracks_def
  orElse_def offsetTrack_def Map_get_def Map_keys_def Map_delete_def

lemmas hook_defs = mount_def rerender_def hook_navigateToView_def hook_returnToLast_def
  hook_registerNewTracks_def hook_deregisterTracks_def currentTrack_body_def
  returnDirection_body_def

lemma scanPositions_iff:
  "n \<le> length ps \<Longrightarrow> scanPositions ps n p \<longleftrightarrow> (\<exists>k<n. ps ! k = p)"
proof (induction n)
  case 0
  then show ?case by simp
next
  case (Suc n)
  then show ?case
    by (auto simp: less_Suc_eq prod_eq_iff)
qed

lemma scanPositions_set: "scanPositions ps (length ps) p \<longleftrightarrow> p \<in> set ps"
  by (simp add: scanPositions_iff in_set_conv_nth)

lemma Map_set_fresh: "\<not> Map_has m k \<Longrightarrow> Map_set k v m = m @ [(k, v)]"
  by (induction m) (auto simp: Map_has_def)

lemma addTrack_cases:
  "addTrack ep u e = u \<or>
   (addTrack ep u e = u @ [e] \<and> fst e \<notin> set (map fst u) \<and> position (snd e) \<notin> set ep)"
  by (auto simp: addTrack_def scanPositions_set Map_set_fresh Map_has_def)

lemma foldl_addTrack:
  "\<exists>xs. foldl (addTrack ep) u mapB = u @ xs \<and> set xs \<subseteq> set mapB
        \<and> (\<forall>e \<in> set xs. position (snd e) \<notin> set ep)"
proof (induction mapB arbitrary: u)
  case Nil
  then show ?case by simp
next
  case (Cons e mapB)
  from Cons.IH [of "addTrack ep u e"] obtain xs where
    xs: "foldl (addTrack ep) (addTrack ep u e) mapB = addTrack ep u e @ xs"
      "set xs \<subseteq> set mapB" "\<forall>e \<in> set xs. position (snd e) \<notin> set ep"
    by blast
  from addTrack_cases [of ep u e] show ?case
  proof
    assume "addTrack ep u e = u"
    with xs show ?thesis by auto
  next
    assume a: "addTrack ep u e = u @ [e] \<and> fst e \<notin> set (map fst u) \<and> position (snd e) \<notin> set ep"
    with xs have "foldl (addTrack ep) u (e # mapB) = u @ (e # xs)" by simp
    moreover have "set (e # xs) \<subseteq> set (e # mapB)" using xs by auto
    moreover have "\<forall>x \<in> set (e # xs). position (snd x) \<notin> set ep" using xs a by auto
    ultimately show ?thesis by blast
  qed
qed

lemma foldl_foldl_addTrack:
  "\<exists>xs. foldl (\<lambda>u mapB. foldl (addTrack ep) u mapB) u maps = u @ xs
        \<and> (\<forall>e \<in> set xs. position (snd e) \<notin> set ep)"
proof (induction maps arbitrary: u)
  case Nil
  then show ?case by simp
next
  case (Cons m maps)
  obtain xs where xs: "foldl (addTrack ep) u m = u @ xs"
    "\<forall>e \<in> set xs. position (snd e) \<notin> set ep"
    using foldl_addTrack [of ep u m] by blast
  obtain ys where ys:
    "foldl (\<lambda>u mapB. foldl (addTrack ep) u mapB) (u @ xs) maps = (u @ xs) @ ys"
    "\<forall>e \<in> set ys. position (snd e) \<notin> set ep"
    using Cons.IH [of "u @ xs"] by blast
  have "foldl (\<lambda>u mapB. foldl (addTrack ep) u mapB) u (m # maps) = u @ (xs @ ys)"
    using xs ys by simp
  moreover have "\<forall>e \<in> set (xs @ ys). position (snd e) \<notin> set ep"
    using xs ys by auto
  ultimately show ?case by blast
qed

lemma getTracksFromMap_split:
  "\<exists>xs. getTracksFromMap mapA maps = map toIter mapA @ map toIter xs
        \<and> (\<forall>e \<in> set xs. position (snd e) \<notin> set (map (\<lambda>b. position (snd b)) mapA))"
proof -
  obtain xs where xs:
    "foldl (\<lambda>u mapB. foldl (addTrack (map (\<lambda>b. position (snd b)) mapA)) u mapB) mapA (map snd maps)
       = mapA @ xs"
    "\<forall>e \<in> set xs. position (snd e) \<notin> set (map (\<lambda>b. position (snd b)) mapA)"
    using foldl_foldl_addTrack [of "map (\<lambda>b. position (snd b)) mapA" mapA "map snd maps"] by blast
  have "getTracksFromMap mapA maps = map toIter (mapA @ xs)"
    using xs(1) by (simp add: getTracksFromMap_def comp_def)
  with xs(2) show ?thesis by auto
qed

lemma find_findById_Some:
  assumes "i \<in> set (map id_track tracks)"
  shows "\<exists>t. find (findById i) tracks = Some t \<and> t \<in> set tracks \<and> id_track t = i"
proof -
  have "find (findById i) tracks \<noteq> None"
    using assms by (auto simp: find_None_iff findById_def)
  then obtain t where t: "find (findById i) tracks = Some t" by blast
  then have "t \<in> set tracks \<and> id_track t = i"
    by (auto simp: find_Some_iff findById_def)
  with t show ?thesis by blast
qed

lemma find_findById_None:
  "i \<notin> set (map id_track tracks) \<Longrightarrow> find (findById i) tracks = None"
  by (auto simp: find_None_iff findById_def)

lemma Map_delete_absent: "\<not> Map_has m k \<Longrightarrow> Map_delete k m = m"
  by (induction m) (auto simp: Map_has_def Map_delete_def)

lemma Map_get_absent: "\<not> Map_has m k \<Longrightarrow> Map_get m k = None"
  by (simp add: Map_has_def Map_get_def map_of_eq_None_iff)

lemma map_of_filter_other:
  "other \<noteq> owner \<Longrightarrow> map_of (filter (\<lambda>p. fst p \<noteq> owner) m) other = map_of m other"
  by (induction m) auto

lemma foldl_clear: "foldl (\<lambda>c key. c(key := None)) c ks = (\<lambda>k. if k \<in> set ks then None else c k)"
  by (induction ks arbitrary: c) (auto simp: fun_eq_iff)

lemma addTrack_filter:
  assumes "filter (\<lambda>e. fst e \<notin> K) u1 = filter (\<lambda>e. fst e \<notin> K) u2"
  shows "filter (\<lambda>e. fst e \<notin> K) (addTrack ep u1 e) = filter (\<lambda>e. fst e \<notin> K) (addTrack ep u2 e)"
proof (cases "fst e \<in> K")
  case True
  have "filter (\<lambda>e. fst e \<notin> K) (addTrack ep u e) = filter (\<lambda>e. fst e \<notin> K) u"
    for u :: "'a TrackMap"
    using True addTrack_cases [of ep u e] by auto
  with assms show ?thesis by simp
next
  case False
  have "fst e \<in> fst ` set u \<longleftrightarrow> fst e \<in> fst ` set (filter (\<lambda>e. fst e \<notin> K) u)"
    for u :: "'a TrackMap"
    using False by force
  from this [of u1] this [of u2] assms have "Map_has u1 (fst e) = Map_has u2 (fst e)"
    unfolding Map_has_def set_map by metis
  with assms False show ?thesis
    by (auto simp: addTrack_def Map_set_fresh)
qed

lemma foldl_addTrack_filter:
  "filter (\<lambda>e. fst e \<notin> K) u1 = filter (\<lambda>e. fst e \<notin> K) u2 \<Longrightarrow>
   filter (\<lambda>e. fst e \<notin> K) (foldl (addTrack ep) u1 m)
     = filter (\<lambda>e. fst e \<notin> K) (foldl (addTrack ep) u2 m)"
proof (induction m arbitrary: u1 u2)
  case Nil
  then show ?case by simp
next
  case (Cons e m)
  show ?case
    using Cons.IH [OF addTrack_filter [OF Cons.prems]] by simp
qed

lemma foldl_addTrack_own:
  "fst ` set m \<subseteq> K \<Longrightarrow>
   filter (\<lambda>e. fst e \<notin> K) (foldl (addTrack ep) u m) = filter (\<lambda>e. fst e \<notin> K) u"
proof -
  assume k: "fst ` set m \<subseteq> K"
  obtain xs where xs: "foldl (addTrack ep) u m = u @ xs" "set xs \<subseteq> set m"
    using foldl_addTrack [of ep u m] by blast
  with k have "filter (\<lambda>e. fst e \<notin> K) xs = []" by (auto simp: filter_empty_conv)
  with xs show ?thesis by simp
qed

lemma merge_filter:
  "filter (\<lambda>e. fst e \<notin> K) u1 = filter (\<lambda>e. fst e \<notin> K) u2 \<Longrightarrow>
   filter (\<lambda>e. fst e \<notin> K) (foldl (\<lambda>u mapB. foldl (addTrack ep) u mapB) u1 ms)
     = filter (\<lambda>e. fst e \<notin> K) (foldl (\<lambda>u mapB. foldl (addTrack ep) u mapB) u2 ms)"
proof (induction ms arbitrary: u1 u2)
  case Nil
  then show ?case by simp
next
  case (Cons m ms)
  show ?case
    using Cons.IH [OF foldl_addTrack_filter [OF Cons.prems]] by simp
qed

lemma merge_without_owner:
  assumes "distinct (map fst maps)" and "map_of maps owner = Some ov"
    and "filter (\<lambda>e. fst e \<notin> fst ` set ov) u1 = filter (\<lambda>e. fst e \<notin> fst ` set ov) u2"
  shows "filter (\<lambda>e. fst e \<notin> fst ` set ov)
           (foldl (\<lambda>u mapB. foldl (addTrack ep) u mapB) u1 (map snd maps))
       = filter (\<lambda>e. fst e \<notin> fst ` set ov)
           (foldl (\<lambda>u mapB. foldl (addTrack ep) u mapB) u2
              (map snd (filter (\<lambda>p. fst p \<noteq> owner) maps)))"
  using assms
proof (induction maps arbitrary: u1 u2)
  case Nil
  then show ?case by simp
next
  case (Cons p maps)
  show ?case
  proof (cases "fst p = owner")
    case True
    with Cons.prems have ov: "snd p = ov" and absent: "owner \<notin> fst ` set maps"
      by (auto simp: rev_image_eqI)
    from absent have same: "filter (\<lambda>p. fst p \<noteq> owner) maps = maps"
      by (auto simp: filter_id_conv)
    have "filter (\<lambda>e. fst e \<notin> fst ` set ov) (foldl (addTrack ep) u1 ov)
            = filter (\<lambda>e. fst e \<notin> fst ` set ov) u2"
      using foldl_addTrack_own [of ov "fst ` set ov" ep u1] Cons.prems(3) by simp
    from merge_filter [OF this, of ep "map snd maps"] show ?thesis
      using True ov same by simp
  next
    case False
    with Cons.prems have d: "distinct (map fst maps)" and m: "map_of maps owner = Some ov"
      by (auto split: if_splits)
    have "filter (\<lambda>e. fst e \<notin> fst ` set ov) (foldl (addTrack ep) u1 (snd p))
            = filter (\<lambda>e. fst e \<notin> fst ` set ov) (foldl (addTrack ep) u2 (snd p))"
      using Cons.prems(3) by (rule foldl_addTrack_filter)
    from Cons.IH [OF d m this] show ?thesis using False by simp
  qed
qed

lemma filter_toIter:
  "filter (\<lambda>t. id_track t \<notin> K) (map toIter u) = map toIter (filter (\<lambda>e. fst e \<notin> K) u)"
  by (induction u) (auto simp: toIter_def)

lemma getTracksFromMap_without_owner:
  assumes "distinct (map fst maps)" and "map_of maps owner = Some ov"
  shows "filter (\<lambda>t. id_track t \<notin> fst ` set ov) (getTracksFromMap mapA maps)
       = filter (\<lambda>t. id_track t \<notin> fst ` set ov)
           (getTracksFromMap mapA (filter (\<lambda>p. fst p \<noteq> owner) maps))"
  using merge_without_owner [OF assms, of mapA mapA]
  by (simp add: getTracksFromMap_def filter_toIter)

lemma getTracksFromMap_no_maps: "getTracksFromMap mapA [] = map toIter mapA"
  by (simp add: getTracksFromMap_def)

lemma foldl_addTrack_keys:
  "distinct (map fst u) \<Longrightarrow> distinct (map fst (foldl (addTrack ep) u m))"
proof (induction m arbitrary: u)
  case Nil
  then show ?case by simp
next
  case (Cons e m)
  have "distinct (map fst (addTrack ep u e))"
    using addTrack_cases [of ep u e] Cons.prems by auto
  from Cons.IH [OF this] show ?case by simp
qed

lemma merge_keys:
  "distinct (map fst u) \<Longrightarrow>
   distinct (map fst (foldl (\<lambda>u mapB. foldl (addTrack ep) u mapB) u ms))"
proof (induction ms arbitrary: u)
  case Nil
  then show ?case by simp
next
  case (Cons m ms)
  from Cons.IH [OF foldl_addTrack_keys [OF Cons.prems]] show ?case by simp
qed

lemma id_track_toIter: "id_track \<circ> toIter = fst"
  by (simp add: fun_eq_iff toIter_def)

lemma getTracksFromMap_distinct_ids:
  "distinct (map fst mapA) \<Longrightarrow> distinct (map id_track (getTracksFromMap mapA maps))"
  by (simp add: getTracksFromMap_def id_track_toIter merge_keys)

lemma Map_set_keys:
  "map fst (Map_set k v m) = (if Map_has m k then map fst m else map fst m @ [k])"
  by (induction m) (auto simp: Map_has_def)

lemma reachable_distinct_owners:
  "reachable defaultTracks s \<Longrightarrow> distinct (map fst (userDefinedTrackMaps s))"
proof (induction rule: reachable.induct)
  case reach_initial
  show ?case by (simp add: initial_def)
next
  case (reach_navigate s i ctx)
  then show ?case by (simp add: navigateToView_def split: option.splits)
next
  case (reach_return s)
  then show ?case by (simp add: returnToLast_def split: option.splits)
next
  case (reach_register s i m anchor)
  then show ?case by (simp add: registerNewTracks_def Let_def Map_set_keys Map_has_def)
next
  case (reach_deregister s owner)
  then show ?case
    by (simp add: deregisterTracks_def Let_def Map_delete_def distinct_map_filter split: option.splits)
qed


lemma navigateToView_stack:
  "journeyStack (fst (navigateToView defaultTracks i ctx s)) = journeyStack s
   \<or> journeyStack (fst (navigateToView defaultTracks i ctx s)) = journeyStack s @ [i]"
  by (auto simp: navigateToView_def find_Some_iff findById_def split: option.splits)

lemma returnToLast_stack:
  "journeyStack (fst (returnToLast defaultTracks s)) = journeyStack s
   \<or> (2 \<le> length (journeyStack s)
       \<and> journeyStack (fst (returnToLast defaultTracks s)) = butlast (journeyStack s))"
  by (auto simp: returnToLast_def previousTrackId_def split: option.splits if_splits)

lemma registerNewTracks_stack:
  "journeyStack (fst (registerNewTracks i m anchor s)) = journeyStack s"
  by (simp add: registerNewTracks_def Let_def)

lemma deregisterTracks_stack:
  "journeyStack (fst (deregisterTracks owner s)) = journeyStack s"
  by (simp add: deregisterTracks_def Let_def split: option.splits)

lemma reachable_nonempty: "reachable defaultTracks s \<Longrightarrow> journeyStack s \<noteq> []"
proof (induction rule: reachable.induct)
  case reach_initial
  show ?case by (simp add: initial_def)
next
  case (reach_navigate s i ctx)
  with navigateToView_stack [of defaultTracks i ctx s] show ?case by auto
next
  case (reach_return s)
  from returnToLast_stack [of defaultTracks s] show ?case
  proof
    assume "journeyStack (fst (returnToLast defaultTracks s)) = journeyStack s"
    with reach_return.IH show ?thesis by simp
  next
    assume a: "2 \<le> length (journeyStack s)
      \<and> journeyStack (fst (returnToLast defaultTracks s)) = butlast (journeyStack s)"
    then have two: "2 \<le> length (journeyStack s)" by blast
    have "butlast (journeyStack s) \<noteq> []"
    proof
      assume e: "butlast (journeyStack s) = []"
      have "length (butlast (journeyStack s)) = length (journeyStack s) - 1"
        by (rule length_butlast)
      with e have "length (journeyStack s) - 1 = 0" by simp
      with two show False by arith
    qed
    with a show ?thesis by simp
  qed
next
  case (reach_register s i m anchor)
  then show ?case by (simp add: registerNewTracks_stack)
next
  case (reach_deregister s owner)
  then show ?case by (simp add: deregisterTracks_stack)
qed

lemma foldl_Map_set_distinct:
  "distinct (map fst acc @ map fst m) \<Longrightarrow>
   foldl (\<lambda>m e. Map_set (fst e) (f (snd e)) m) acc m = acc @ map (\<lambda>e. (fst e, f (snd e))) m"
proof (induction m arbitrary: acc)
  case Nil
  then show ?case by simp
next
  case (Cons e m)
  then have fresh: "\<not> Map_has acc (fst e)" by (auto simp: Map_has_def)
  have "distinct (map fst (acc @ [(fst e, f (snd e))]) @ map fst m)"
    using Cons.prems by auto
  from Cons.IH [OF this] show ?case
    by (simp add: Map_set_fresh [OF fresh])
qed

lemma userTargetMap_distinct:
  "distinct (map fst m) \<Longrightarrow>
   foldl (\<lambda>acc e. Map_set (fst e) (offsetTrack ox oy (snd e)) acc) [] m
     = map (\<lambda>e. (fst e, offsetTrack ox oy (snd e))) m"
  using foldl_Map_set_distinct [of "[]" m "offsetTrack ox oy"] by simp

lemma registerNewTracks_translates:
  assumes "distinct (map fst m)"
  shows "registerNewTracks owner m None s =
           (s\<lparr>userDefinedTrackMaps :=
                Map_set owner
                  (map (\<lambda>e. (fst e, offsetTrack (fst (currentPosition s)) (snd (currentPosition s)) (snd e))) m)
                  (userDefinedTrackMaps s)\<rparr>, [])"
    and "ax \<noteq> 0 \<Longrightarrow> ay \<noteq> 0 \<Longrightarrow>
         registerNewTracks owner m (Some (ax, ay)) s =
           (s\<lparr>userDefinedTrackMaps :=
                Map_set owner (map (\<lambda>e. (fst e, offsetTrack ax ay (snd e))) m)
                  (userDefinedTrackMaps s)\<rparr>, [])"
  using assms
  by (simp_all add: registerNewTracks_def orElse_def Let_def userTargetMap_distinct)


section \<open>The merge and the positions of the tracks\<close>

text \<open>
  C1, at an input where the code departs from it. The default tracks are \<open>start\<close> alone,
  at \<open>(0, 0)\<close>, and one user map has \<open>a\<close> and \<open>b\<close> both at \<open>(1, 0)\<close> and \<open>c\<close> at
  \<open>(0, 0)\<close>. The merge refuses \<open>c\<close>, whose position is that of \<open>start\<close>, and takes both
  \<open>a\<close> and \<open>b\<close>: the track list has two tracks at \<open>(1, 0)\<close>. The positions a candidate is
  compared with are collected once, from the default tracks, and the position of a track
  that has been added is never added to them.
\<close>

theorem getTracksFromMap_overlay_collision:
  "distinct (map (\<lambda>e. position (snd e)) start_only)
   \<and> getTracksFromMap start_only twin_overlay =
     [\<lparr>position = (0, 0), render = (), id_track = ''start''\<rparr>,
      \<lparr>position = (1, 0), render = (), id_track = ''a''\<rparr>,
      \<lparr>position = (1, 0), render = (), id_track = ''b''\<rparr>]
   \<and> map position (getTracksFromMap start_only twin_overlay) = [(0, 0), (1, 0), (1, 0)]
   \<and> \<not> distinct (map position (getTracksFromMap start_only twin_overlay))"
  by (simp add: start_only_def twin_overlay_def eval_defs)

text \<open>
  What the comparison does ensure: the track list starts with the default tracks,
  unchanged and in their order, and no track after them, that is no track taken from a
  user map, sits at the position of a default track.
\<close>

lemma getTracksFromMap_overlay_off_base:
  "take (length mapA) (getTracksFromMap mapA maps) = map toIter mapA \<and>
   (\<forall>t \<in> set (drop (length mapA) (getTracksFromMap mapA maps)).
      \<forall>b \<in> set mapA. position t \<noteq> position (snd b))"
proof -
  obtain xs where xs: "getTracksFromMap mapA maps = map toIter mapA @ map toIter xs"
    "\<forall>e \<in> set xs. position (snd e) \<notin> set (map (\<lambda>b. position (snd b)) mapA)"
    using getTracksFromMap_split by blast
  have "position (toIter e) = position (snd e)" for e :: "string \<times> 'a TrackDefinition"
    by (simp add: toIter_def)
  with xs show ?thesis by force
qed

text \<open>
  The default map itself is copied as it is: two default tracks at one position both stay.
\<close>

lemma getTracksFromMap_base_unchecked:
  "getTracksFromMap twin_tracks [] =
     [\<lparr>position = (0, 0), render = (), id_track = ''a''\<rparr>,
      \<lparr>position = (0, 0), render = (), id_track = ''b''\<rparr>]"
  by (simp add: twin_tracks_def eval_defs)

section \<open>Registering tracks\<close>

text \<open>
  C2, at an input where the code departs from it. The current position is \<open>(2, 3)\<close>,
  reached by navigating to the track \<open>far\<close>, and one track at \<open>(1, 1)\<close> is registered
  with the start position \<open>(0, 0)\<close>. The map stored has the track at \<open>(3, 4)\<close>, moved by
  the current position, where C2 has it at \<open>(1, 1)\<close>, moved by the start position given:
  a coordinate \<open>0\<close> of the start position is falsy and gives way to the current position's.
  With the start position \<open>(0, 7)\<close> the track is stored at \<open>(3, 8)\<close>.
\<close>

theorem registerNewTracks_zero_anchor:
  "fst (navigateToView far_tracks ''far'' None initial) = far_state
   \<and> userDefinedTrackMaps (fst (registerNewTracks ''o'' [(''a'', track 1 1)] (Some (0, 0)) far_state))
       = [(''o'', [(''a'', track 3 4)])]
   \<and> userDefinedTrackMaps (fst (registerNewTracks ''o'' [(''a'', track 1 1)] (Some (0, 7)) far_state))
       = [(''o'', [(''a'', track 3 8)])]"
  by (simp add: far_tracks_def far_state_def run_defs eval_defs)

section \<open>Navigation\<close>

text \<open>
  C3. For an id that a track of the current list carries, \<open>navigateToView\<close> finds that
  track, stores the context under the id (replacing what was there, also when the context
  is \<^verbatim>\<open>undefined\<close>), appends the id, and nothing else, to the journey stack, and makes the
  track's position the current position. Nothing is printed.
\<close>

theorem navigateToView_valid:
  assumes "i \<in> set (map id_track (allTracksAsList defaultTracks s))"
  shows "\<exists>t. find (findById i) (allTracksAsList defaultTracks s) = Some t
           \<and> t \<in> set (allTracksAsList defaultTracks s) \<and> id_track t = i
           \<and> navigateToView defaultTracks i ctx s =
               (s\<lparr>contextMap := (contextMap s)(i \<mapsto> ctx),
                  journeyStack := journeyStack s @ [i],
                  currentPosition := position t\<rparr>, [])"
proof -
  obtain t where t: "find (findById i) (allTracksAsList defaultTracks s) = Some t"
    "t \<in> set (allTracksAsList defaultTracks s)" "id_track t = i"
    using find_findById_Some [OF assms] by blast
  then show ?thesis by (simp add: navigateToView_def)
qed

theorem navigateToView_valid_witness:
  "''left'' \<in> set (map id_track (allTracksAsList scenario_tracks (initial :: (unit, unit) railway)))
   \<and> navigateToView scenario_tracks ''left'' None (initial :: (unit, unit) railway) =
       (\<lparr>journeyStack = [''start'', ''left''], currentPosition = (-1, 0),
         userDefinedTrackMaps = [], contextMap = [''left'' \<mapsto> None]\<rparr>, [])"
  using navigateToView_valid [of "''left''" scenario_tracks "initial :: (unit, unit) railway" None]
  by (simp add: eval_defs scenario_tracks_def navigateToView_def)

text \<open>
  C4. For an id that no track of the current list carries, \<open>navigateToView\<close> returns
  the state it was given: journey stack, current position, context map and user maps
  are the same, and the only effect is the one message on the error console.
\<close>

theorem navigateToView_invalid:
  assumes "i \<notin> set (map id_track (allTracksAsList defaultTracks s))"
  shows "navigateToView defaultTracks i ctx s = (s, [NotAValidTrack i])"
proof -
  have "find (findById i) (allTracksAsList defaultTracks s) = None"
    using assms by (rule find_findById_None)
  then show ?thesis by (simp add: navigateToView_def)
qed

theorem navigateToView_invalid_witness:
  "''missing'' \<notin> set (map id_track (allTracksAsList scenario_tracks (initial :: (unit, unit) railway)))
   \<and> navigateToView scenario_tracks ''missing'' None (initial :: (unit, unit) railway) =
       (initial, [NotAValidTrack ''missing''])"
  using navigateToView_invalid [of "''missing''" scenario_tracks "initial :: (unit, unit) railway" None]
  by (simp add: eval_defs scenario_tracks_def)

text \<open>
  C5, as the code has it. \<open>returnToLast\<close> changes nothing when the journey stack has
  fewer than two entries or when the entry before the last is the empty string. Otherwise,
  when that entry is the id of a track of the current list, the last entry of the journey
  stack is removed, the current position becomes the position of that track and the context
  map stays as it is; and when it is the id of no track, the state stays as it is and the
  id is reported on the error console.
\<close>

theorem returnToLast_cases:
  "(length (journeyStack s) < 2 \<or> journeyStack s ! (length (journeyStack s) - 2) = ''''
      \<longrightarrow> returnToLast defaultTracks s = (s, []))
   \<and> (2 \<le> length (journeyStack s) \<and> journeyStack s ! (length (journeyStack s) - 2) \<noteq> ''''
        \<and> journeyStack s ! (length (journeyStack s) - 2)
             \<in> set (map id_track (allTracksAsList defaultTracks s))
      \<longrightarrow> (\<exists>t. find (findById (journeyStack s ! (length (journeyStack s) - 2)))
                    (allTracksAsList defaultTracks s) = Some t
               \<and> id_track t = journeyStack s ! (length (journeyStack s) - 2)
               \<and> returnToLast defaultTracks s =
                   (s\<lparr>journeyStack := butlast (journeyStack s),
                      currentPosition := position t\<rparr>, [])
               \<and> journeyStack s = butlast (journeyStack s) @ [last (journeyStack s)]
               \<and> contextMap (fst (returnToLast defaultTracks s)) = contextMap s))
   \<and> (2 \<le> length (journeyStack s) \<and> journeyStack s ! (length (journeyStack s) - 2) \<noteq> ''''
        \<and> journeyStack s ! (length (journeyStack s) - 2)
             \<notin> set (map id_track (allTracksAsList defaultTracks s))
      \<longrightarrow> returnToLast defaultTracks s =
            (s, [NotAValidTrack (journeyStack s ! (length (journeyStack s) - 2))]))"
proof (intro conjI impI)
  assume "length (journeyStack s) < 2 \<or> journeyStack s ! (length (journeyStack s) - 2) = ''''"
  then have "previousTrackId (journeyStack s) = None"
    by (auto simp: previousTrackId_def)
  then show "returnToLast defaultTracks s = (s, [])"
    by (simp add: returnToLast_def)
next
  let ?p = "journeyStack s ! (length (journeyStack s) - 2)"
  assume a: "2 \<le> length (journeyStack s) \<and> ?p \<noteq> ''''
    \<and> ?p \<in> set (map id_track (allTracksAsList defaultTracks s))"
  then have p: "previousTrackId (journeyStack s) = Some ?p"
    by (simp add: previousTrackId_def)
  from a obtain t where t: "find (findById ?p) (allTracksAsList defaultTracks s) = Some t"
    "id_track t = ?p"
    using find_findById_Some by blast
  have ne: "journeyStack s \<noteq> []" using a by auto
  show "\<exists>t. find (findById ?p) (allTracksAsList defaultTracks s) = Some t
          \<and> id_track t = ?p
          \<and> returnToLast defaultTracks s =
              (s\<lparr>journeyStack := butlast (journeyStack s), currentPosition := position t\<rparr>, [])
          \<and> journeyStack s = butlast (journeyStack s) @ [last (journeyStack s)]
          \<and> contextMap (fst (returnToLast defaultTracks s)) = contextMap s"
    using t p ne by (simp add: returnToLast_def)
next
  let ?p = "journeyStack s ! (length (journeyStack s) - 2)"
  assume a: "2 \<le> length (journeyStack s) \<and> ?p \<noteq> ''''
    \<and> ?p \<notin> set (map id_track (allTracksAsList defaultTracks s))"
  then have p: "previousTrackId (journeyStack s) = Some ?p"
    by (simp add: previousTrackId_def)
  from a have "find (findById ?p) (allTracksAsList defaultTracks s) = None"
    by (simp add: find_findById_None)
  with p show "returnToLast defaultTracks s = (s, [NotAValidTrack ?p])"
    by (simp add: returnToLast_def)
qed

theorem returnToLast_cases_witness:
  "returnToLast scenario_tracks (initial :: (unit, unit) railway) = (initial, [])
   \<and> returnToLast scenario_tracks visited_left =
       (\<lparr>journeyStack = [''start''], currentPosition = (0, 0),
         userDefinedTrackMaps = [], contextMap = [''left'' \<mapsto> None]\<rparr>, [])
   \<and> returnToLast scenario_tracks ghost_state = (ghost_state, [NotAValidTrack ''ghost''])"
proof -
  have 1: "returnToLast scenario_tracks (initial :: (unit, unit) railway) = (initial, [])"
    using returnToLast_cases [of "initial :: (unit, unit) railway" scenario_tracks]
    by (simp add: initial_def)
  have 2: "returnToLast scenario_tracks visited_left =
       (\<lparr>journeyStack = [''start''], currentPosition = (0, 0),
         userDefinedTrackMaps = [], contextMap = [''left'' \<mapsto> None]\<rparr>, [])"
    using returnToLast_cases [of visited_left scenario_tracks]
    by (simp add: visited_left_def eval_defs scenario_tracks_def)
  have 3: "returnToLast scenario_tracks ghost_state = (ghost_state, [NotAValidTrack ''ghost''])"
    using returnToLast_cases [of ghost_state scenario_tracks]
    by (simp add: ghost_state_def eval_defs scenario_tracks_def)
  from 1 2 3 show ?thesis by blast
qed


text \<open>
  C5 as the specification words it fails when the entry before the last is the empty
  string and a track has the empty string as its id. Navigating to that track and back to
  \<open>start\<close> gives such a journey stack; \<open>returnToLast\<close> then treats the empty id as no
  id at all and leaves the journey stack and the current position alone.
\<close>

theorem returnToLast_blank_counterexample:
  "fst (navigateToView blank_tracks ''start'' None
         (fst (navigateToView blank_tracks '''' None initial))) = blank_visit
   \<and> 2 \<le> length (journeyStack blank_visit)
   \<and> find (findById (journeyStack blank_visit ! (length (journeyStack blank_visit) - 2)))
        (allTracksAsList blank_tracks blank_visit)
       = Some \<lparr>position = (1, 0), render = (), id_track = ''''\<rparr>
   \<and> returnToLast blank_tracks blank_visit = (blank_visit, [])
   \<and> journeyStack (fst (returnToLast blank_tracks blank_visit))
       \<noteq> butlast (journeyStack blank_visit)
   \<and> currentPosition (fst (returnToLast blank_tracks blank_visit)) \<noteq> (1, 0)"
  by (simp add: blank_visit_def blank_tracks_def navigateToView_def returnToLast_def eval_defs)

section \<open>The return direction\<close>












text \<open>
  In the second of these states the hook also still publishes the deregistered track as
  its current track.
\<close>

lemma currentTrack_published_stale:
  "currentTrack stale_hook = Some \<lparr>position = (1, 0), render = (), id_track = ''a''\<rparr>
   \<and> currentTrack_body (allTracksAsList start_only (state stale_hook))
        (currentPosition (state stale_hook)) = None"
  by (simp add: stale_hook_def start_only_def hook_defs run_defs eval_defs)

section \<open>Deregistering tracks\<close>

text \<open>
  C7, as the code has it. With an owner id that is not the empty string,
  \<open>deregisterTracks\<close> takes that owner's map out of the user maps and leaves every other
  owner's map in place, deletes from the context map the ids of that map and no other, and
  the track list is as before at every id outside that map (the user maps being a
  \<^verbatim>\<open>Map\<close>, with one entry per owner). With no owner id, or with the empty string, it
  empties the user maps in one step, so that the track list is the default tracks, and the
  context map keeps every entry.
\<close>

theorem deregisterTracks_effect:
  "(owner \<noteq> '''' \<longrightarrow>
      deregisterTracks (Some owner) s =
        (s\<lparr>contextMap := (\<lambda>k. if k \<in> set (case Map_get (userDefinedTrackMaps s) owner of
                                                None \<Rightarrow> [] | Some m \<Rightarrow> Map_keys m)
                               then None else contextMap s k),
           userDefinedTrackMaps := filter (\<lambda>p. fst p \<noteq> owner) (userDefinedTrackMaps s)\<rparr>, [])
      \<and> \<not> Map_has (userDefinedTrackMaps (fst (deregisterTracks (Some owner) s))) owner
      \<and> (\<forall>other. other \<noteq> owner \<longrightarrow>
            Map_get (userDefinedTrackMaps (fst (deregisterTracks (Some owner) s))) other
              = Map_get (userDefinedTrackMaps s) other)
      \<and> (distinct (map fst (userDefinedTrackMaps s)) \<longrightarrow>
            filter (\<lambda>t. id_track t \<notin> set (case Map_get (userDefinedTrackMaps s) owner of
                                                None \<Rightarrow> [] | Some m \<Rightarrow> Map_keys m))
                   (allTracksAsList defaultTracks (fst (deregisterTracks (Some owner) s)))
          = filter (\<lambda>t. id_track t \<notin> set (case Map_get (userDefinedTrackMaps s) owner of
                                                None \<Rightarrow> [] | Some m \<Rightarrow> Map_keys m))
                   (allTracksAsList defaultTracks s)))
   \<and> deregisterTracks None s = (s\<lparr>userDefinedTrackMaps := []\<rparr>, [])
   \<and> deregisterTracks (Some '''') s = (s\<lparr>userDefinedTrackMaps := []\<rparr>, [])
   \<and> allTracksAsList defaultTracks (s\<lparr>userDefinedTrackMaps := []\<rparr>) = map toIter defaultTracks
   \<and> contextMap (s\<lparr>userDefinedTrackMaps := []\<rparr>) = contextMap s"
proof -
  let ?K = "case Map_get (userDefinedTrackMaps s) owner of None \<Rightarrow> [] | Some m \<Rightarrow> Map_keys m"
  let ?s' = "s\<lparr>contextMap := (\<lambda>k. if k \<in> set ?K then None else contextMap s k),
               userDefinedTrackMaps := filter (\<lambda>p. fst p \<noteq> owner) (userDefinedTrackMaps s)\<rparr>"
  have run: "deregisterTracks (Some owner) s = (?s', [])" if "owner \<noteq> ''''"
    using that by (simp add: deregisterTracks_def Let_def foldl_clear Map_delete_def)
  have gone: "\<not> Map_has (userDefinedTrackMaps ?s') owner"
    by (auto simp: Map_has_def)
  have others: "Map_get (userDefinedTrackMaps ?s') other = Map_get (userDefinedTrackMaps s) other"
    if "other \<noteq> owner" for other
    using that by (simp add: Map_get_def map_of_filter_other)
  have frame: "filter (\<lambda>t. id_track t \<notin> set ?K) (allTracksAsList defaultTracks ?s')
             = filter (\<lambda>t. id_track t \<notin> set ?K) (allTracksAsList defaultTracks s)"
    if d: "distinct (map fst (userDefinedTrackMaps s))"
  proof (cases "Map_get (userDefinedTrackMaps s) owner")
    case None
    then have "owner \<notin> fst ` set (userDefinedTrackMaps s)"
      by (simp add: Map_get_def map_of_eq_None_iff)
    then have "filter (\<lambda>p. fst p \<noteq> owner) (userDefinedTrackMaps s) = userDefinedTrackMaps s"
      by (auto simp: filter_id_conv)
    then show ?thesis by (simp add: allTracksAsList_def)
  next
    case (Some ov)
    then have m: "map_of (userDefinedTrackMaps s) owner = Some ov" by (simp add: Map_get_def)
    show ?thesis
      using getTracksFromMap_without_owner [OF d m, of defaultTracks] Some
      by (simp add: allTracksAsList_def Map_keys_def)
  qed
  have clear: "deregisterTracks None s = (s\<lparr>userDefinedTrackMaps := []\<rparr>, [])"
    "deregisterTracks (Some '''') s = (s\<lparr>userDefinedTrackMaps := []\<rparr>, [])"
    by (simp_all add: deregisterTracks_def)
  have flat: "allTracksAsList defaultTracks (s\<lparr>userDefinedTrackMaps := []\<rparr>) = map toIter defaultTracks"
    by (simp add: allTracksAsList_def getTracksFromMap_no_maps)
  show ?thesis
    using run gone others frame clear flat by simp
qed

theorem deregisterTracks_effect_witness:
  "''o'' \<noteq> ''''
   \<and> distinct (map fst (userDefinedTrackMaps one_owner))
   \<and> userDefinedTrackMaps (fst (deregisterTracks (Some ''o'') one_owner))
       = [(''p'', [(''c'', track 3 0)])]
   \<and> ''p'' \<noteq> ''o''
   \<and> Map_get (userDefinedTrackMaps (fst (deregisterTracks (Some ''o'') one_owner))) ''p''
       = Some [(''c'', track 3 0)]
   \<and> contextMap one_owner ''b'' = Some (Some ())
   \<and> contextMap (fst (deregisterTracks (Some ''o'') one_owner)) ''b'' = None
   \<and> contextMap (fst (deregisterTracks (Some ''o'') one_owner)) ''c'' = Some (Some ())
   \<and> filter (\<lambda>t. id_track t \<notin> set [''b''])
        (allTracksAsList start_only (fst (deregisterTracks (Some ''o'') one_owner)))
       = filter (\<lambda>t. id_track t \<notin> set [''b'']) (allTracksAsList start_only one_owner)
   \<and> userDefinedTrackMaps (fst (deregisterTracks None one_owner)) = []
   \<and> contextMap (fst (deregisterTracks None one_owner)) ''b'' = Some (Some ())"
proof -
  have ne: "''o'' \<noteq> ''''" by simp
  have d: "distinct (map fst (userDefinedTrackMaps one_owner))"
    by (simp add: one_owner_def)
  have k: "(case Map_get (userDefinedTrackMaps one_owner) ''o'' of
              None \<Rightarrow> [] | Some m \<Rightarrow> Map_keys m) = [''b'']"
    by (simp add: one_owner_def Map_get_def Map_keys_def)
  note eff = deregisterTracks_effect [of "''o''" one_owner start_only, unfolded k]
  from eff ne have run: "deregisterTracks (Some ''o'') one_owner =
      (one_owner\<lparr>contextMap := (\<lambda>k. if k \<in> set [''b''] then None else contextMap one_owner k),
         userDefinedTrackMaps := filter (\<lambda>p. fst p \<noteq> ''o'') (userDefinedTrackMaps one_owner)\<rparr>, [])"
    by blast
  from eff ne d have frame:
    "filter (\<lambda>t. id_track t \<notin> set [''b''])
        (allTracksAsList start_only (fst (deregisterTracks (Some ''o'') one_owner)))
       = filter (\<lambda>t. id_track t \<notin> set [''b'']) (allTracksAsList start_only one_owner)"
    by blast
  from eff ne have "\<forall>other. other \<noteq> ''o'' \<longrightarrow>
      Map_get (userDefinedTrackMaps (fst (deregisterTracks (Some ''o'') one_owner))) other
        = Map_get (userDefinedTrackMaps one_owner) other"
    by blast
  then have keep: "''p'' \<noteq> ''o''
      \<and> Map_get (userDefinedTrackMaps (fst (deregisterTracks (Some ''o'') one_owner))) ''p''
          = Some [(''c'', track 3 0)]"
    by (simp add: one_owner_def Map_get_def)
  from eff have clear: "deregisterTracks None one_owner = (one_owner\<lparr>userDefinedTrackMaps := []\<rparr>, [])"
    by blast
  have 1: "userDefinedTrackMaps (fst (deregisterTracks (Some ''o'') one_owner))
       = [(''p'', [(''c'', track 3 0)])]"
    unfolding run by (simp add: one_owner_def)
  have 2: "contextMap (fst (deregisterTracks (Some ''o'') one_owner)) ''b'' = None"
    unfolding run by simp
  have 3: "contextMap (fst (deregisterTracks (Some ''o'') one_owner)) ''c'' = Some (Some ())"
    unfolding run by (simp add: one_owner_def)
  have 4: "userDefinedTrackMaps (fst (deregisterTracks None one_owner)) = []"
    unfolding clear by simp
  have 5: "contextMap (fst (deregisterTracks None one_owner)) ''b'' = Some (Some ())"
    unfolding clear by (simp add: one_owner_def)
  have 6: "contextMap one_owner ''b'' = Some (Some ())"
    by (simp add: one_owner_def)
  from ne d 1 2 3 4 5 6 frame keep show ?thesis by blast
qed

text \<open>
  C7 as the specification words it fails for the owner id that is the empty string, which
  a caller can register tracks under: deregistering it removes the map of the owner \<open>o\<close>
  as well and purges no context, here the context stored for \<open>a\<close>. The state is the one
  reached by registering two maps and navigating to their tracks.
\<close>

theorem deregisterTracks_empty_owner_counterexample:
  "fst (navigateToView start_only ''b'' (Some ())
     (fst (navigateToView start_only ''a'' (Some ())
       (fst (registerNewTracks ''o'' [(''b'', track 2 0)] None
         (fst (registerNewTracks '''' [(''a'', track 1 0)] None initial))))))) = two_owners_ctx
   \<and> Map_get (userDefinedTrackMaps two_owners_ctx) ''o'' = Some [(''b'', track 2 0)]
   \<and> deregisterTracks (Some '''') two_owners_ctx = (two_owners_ctx\<lparr>userDefinedTrackMaps := []\<rparr>, [])
   \<and> Map_get (userDefinedTrackMaps (fst (deregisterTracks (Some '''') two_owners_ctx))) ''o'' = None
   \<and> contextMap (fst (deregisterTracks (Some '''') two_owners_ctx)) ''a'' = Some (Some ())"
  by (simp add: two_owners_ctx_def start_only_def run_defs eval_defs)

text \<open>
  The ids purged from the context map are the keys of the owner's map as stored, whether or
  not the merge took them into the track list. An owner whose map names \<open>start\<close> again
  is refused that track by the merge, and deregistering the owner still deletes the context
  stored for the default track \<open>start\<close>.
\<close>

lemma deregisterTracks_shadowed_id:
  "fst (navigateToView start_only ''start'' (Some ())
      (fst (registerNewTracks ''o'' [(''start'', track 5 5)] None initial))) = shadow_state
   \<and> allTracksAsList start_only shadow_state
       = [\<lparr>position = (0, 0), render = (), id_track = ''start''\<rparr>]
   \<and> allTracksAsList start_only (fst (deregisterTracks (Some ''o'') shadow_state))
       = [\<lparr>position = (0, 0), render = (), id_track = ''start''\<rparr>]
   \<and> contextMap shadow_state ''start'' = Some (Some ())
   \<and> contextMap (fst (deregisterTracks (Some ''o'') shadow_state)) ''start'' = None"
  by (simp add: shadow_state_def start_only_def run_defs eval_defs)

text \<open>
  C10. Deregistering under an owner id that is not empty and has no map registered
  returns the state as it was, with nothing printed: the user maps, the track list and the
  context map are the same.
\<close>

theorem deregisterTracks_unknown_owner:
  assumes "owner \<noteq> ''''" and "\<not> Map_has (userDefinedTrackMaps s) owner"
  shows "deregisterTracks (Some owner) s = (s, [])
         \<and> userDefinedTrackMaps (fst (deregisterTracks (Some owner) s)) = userDefinedTrackMaps s
         \<and> allTracksAsList defaultTracks (fst (deregisterTracks (Some owner) s))
             = allTracksAsList defaultTracks s
         \<and> contextMap (fst (deregisterTracks (Some owner) s)) = contextMap s"
proof -
  have "deregisterTracks (Some owner) s = (s, [])"
    using assms by (simp add: deregisterTracks_def Map_get_absent Map_delete_absent)
  then show ?thesis by simp
qed

theorem deregisterTracks_unknown_owner_witness:
  "''q'' \<noteq> '''' \<and> \<not> Map_has (userDefinedTrackMaps one_owner) ''q''
   \<and> deregisterTracks (Some ''q'') one_owner = (one_owner, [])
   \<and> userDefinedTrackMaps (fst (deregisterTracks (Some ''q'') one_owner))
       = [(''o'', [(''b'', track 2 0)]), (''p'', [(''c'', track 3 0)])]"
  using deregisterTracks_unknown_owner [of "''q''" one_owner start_only]
  by (simp add: one_owner_def Map_has_def)


section \<open>Returning and navigating again\<close>

text \<open>
  C8, as the code has it. In a state whose journey stack has at least two entries, whose
  entry before the last is not the empty string and is the id of a track, and whose last
  entry is the id of a track, \<open>returnToLast\<close> followed by \<open>navigateToView\<close> with the
  last entry gives back the journey stack entry for entry, so its length changes by zero,
  makes the position of the last entry's track the current position (the position before
  the two calls whenever that was this track's position), and leaves the user maps alone.
  The pair is not the identity on the state: the context stored for the last entry is
  replaced by the context passed.
\<close>

theorem return_then_navigate:
  assumes "2 \<le> length (journeyStack s)"
    and "journeyStack s ! (length (journeyStack s) - 2) \<noteq> ''''"
    and "journeyStack s ! (length (journeyStack s) - 2)
           \<in> set (map id_track (allTracksAsList defaultTracks s))"
    and "last (journeyStack s) \<in> set (map id_track (allTracksAsList defaultTracks s))"
  shows "\<exists>t. find (findById (last (journeyStack s))) (allTracksAsList defaultTracks s) = Some t
           \<and> id_track t = last (journeyStack s)
           \<and> journeyStack (fst (navigateToView defaultTracks (last (journeyStack s)) ctx
                                  (fst (returnToLast defaultTracks s)))) = journeyStack s
           \<and> currentPosition (fst (navigateToView defaultTracks (last (journeyStack s)) ctx
                                  (fst (returnToLast defaultTracks s)))) = position t
           \<and> contextMap (fst (navigateToView defaultTracks (last (journeyStack s)) ctx
                                  (fst (returnToLast defaultTracks s))))
               = (contextMap s)(last (journeyStack s) \<mapsto> ctx)
           \<and> userDefinedTrackMaps (fst (navigateToView defaultTracks (last (journeyStack s)) ctx
                                  (fst (returnToLast defaultTracks s)))) = userDefinedTrackMaps s"
proof -
  let ?p = "journeyStack s ! (length (journeyStack s) - 2)"
  let ?l = "last (journeyStack s)"
  have p: "previousTrackId (journeyStack s) = Some ?p"
    using assms(1,2) by (simp add: previousTrackId_def)
  obtain pt where pt: "find (findById ?p) (allTracksAsList defaultTracks s) = Some pt"
    using find_findById_Some [OF assms(3)] by blast
  obtain t where t: "find (findById ?l) (allTracksAsList defaultTracks s) = Some t" "id_track t = ?l"
    using find_findById_Some [OF assms(4)] by blast
  have ret: "fst (returnToLast defaultTracks s) =
      s\<lparr>journeyStack := butlast (journeyStack s), currentPosition := position pt\<rparr>"
    using p pt by (simp add: returnToLast_def)
  have same: "allTracksAsList defaultTracks (fst (returnToLast defaultTracks s))
      = allTracksAsList defaultTracks s"
    unfolding ret by (simp add: allTracksAsList_def)
  have ne: "journeyStack s \<noteq> []" using assms(1) by auto
  have "fst (navigateToView defaultTracks ?l ctx (fst (returnToLast defaultTracks s))) =
      s\<lparr>contextMap := (contextMap s)(?l \<mapsto> ctx), currentPosition := position t\<rparr>"
    using t same ne by (simp add: navigateToView_def) (simp add: ret)
  with t show ?thesis by simp
qed

theorem return_then_navigate_witness:
  "2 \<le> length (journeyStack visited_left)
   \<and> journeyStack visited_left ! (length (journeyStack visited_left) - 2) \<noteq> ''''
   \<and> journeyStack visited_left ! (length (journeyStack visited_left) - 2)
        \<in> set (map id_track (allTracksAsList scenario_tracks visited_left))
   \<and> last (journeyStack visited_left) \<in> set (map id_track (allTracksAsList scenario_tracks visited_left))
   \<and> journeyStack (fst (navigateToView scenario_tracks (last (journeyStack visited_left)) (Some ())
                          (fst (returnToLast scenario_tracks visited_left)))) = [''start'', ''left'']
   \<and> currentPosition (fst (navigateToView scenario_tracks (last (journeyStack visited_left)) (Some ())
                          (fst (returnToLast scenario_tracks visited_left)))) = (-1, 0)
   \<and> contextMap (fst (navigateToView scenario_tracks (last (journeyStack visited_left)) (Some ())
                          (fst (returnToLast scenario_tracks visited_left)))) ''left'' = Some (Some ())
   \<and> contextMap visited_left ''left'' = Some None"
proof -
  have h1: "2 \<le> length (journeyStack visited_left)" by (simp add: visited_left_def)
  have h2: "journeyStack visited_left ! (length (journeyStack visited_left) - 2) \<noteq> ''''"
    by (simp add: visited_left_def)
  have h3: "journeyStack visited_left ! (length (journeyStack visited_left) - 2)
        \<in> set (map id_track (allTracksAsList scenario_tracks visited_left))"
    by (simp add: visited_left_def scenario_tracks_def eval_defs)
  have h4: "last (journeyStack visited_left)
        \<in> set (map id_track (allTracksAsList scenario_tracks visited_left))"
    by (simp add: visited_left_def scenario_tracks_def eval_defs)
  have f: "find (findById (last (journeyStack visited_left)))
             (allTracksAsList scenario_tracks visited_left)
           = Some \<lparr>position = (-1, 0), render = (), id_track = ''left''\<rparr>"
    by (simp add: visited_left_def scenario_tracks_def eval_defs)
  have l: "last (journeyStack visited_left) = ''left''" by (simp add: visited_left_def)
  have c: "contextMap visited_left ''left'' = Some None" by (simp add: visited_left_def)
  have j: "journeyStack visited_left = [''start'', ''left'']" by (simp add: visited_left_def)
  from return_then_navigate [OF h1 h2 h3 h4, of "Some ()"] f l j
  have "journeyStack (fst (navigateToView scenario_tracks (last (journeyStack visited_left)) (Some ())
                          (fst (returnToLast scenario_tracks visited_left)))) = [''start'', ''left'']
   \<and> currentPosition (fst (navigateToView scenario_tracks (last (journeyStack visited_left)) (Some ())
                          (fst (returnToLast scenario_tracks visited_left)))) = (-1, 0)
   \<and> contextMap (fst (navigateToView scenario_tracks (last (journeyStack visited_left)) (Some ())
                          (fst (returnToLast scenario_tracks visited_left)))) ''left'' = Some (Some ())"
    by auto
  with h1 h2 h3 h4 c show ?thesis by blast
qed

text \<open>
  C8 as the specification words it fails in three ways. After navigating left in the
  scenario of the specification, the pair of calls gives a journey stack of the original
  length, which C8 denies. When the entry before the last is the id of a track that has
  been deregistered, \<open>returnToLast\<close> does nothing and the journey stack ends one entry
  longer. When the track of the last entry has been registered again at another place, the
  current position ends at the new place, not where it was.
\<close>

theorem return_then_navigate_counterexample:
  "2 \<le> length (journeyStack visited_left)
   \<and> last (journeyStack visited_left) \<in> set (map id_track (allTracksAsList scenario_tracks visited_left))
   \<and> length (journeyStack (fst (navigateToView scenario_tracks ''left'' None
                 (fst (returnToLast scenario_tracks visited_left)))))
       = length (journeyStack visited_left)
   \<and> fst (navigateToView start_only ''start'' None
        (fst (deregisterTracks (Some ''o'')
          (fst (navigateToView start_only ''ghost'' None
            (fst (registerNewTracks ''o'' [(''ghost'', track 5 5)] None initial))))))) = stale_visit
   \<and> last (journeyStack stale_visit) \<in> set (map id_track (allTracksAsList start_only stale_visit))
   \<and> length (journeyStack (fst (navigateToView start_only ''start'' None
                 (fst (returnToLast start_only stale_visit)))))
       = length (journeyStack stale_visit) + 1
   \<and> fst (registerNewTracks ''o'' [(''a'', track 1 0)] None
        (fst (navigateToView start_only ''a'' None
          (fst (registerNewTracks ''o'' [(''a'', track 1 0)] None initial))))) = moved_state
   \<and> last (journeyStack moved_state) \<in> set (map id_track (allTracksAsList start_only moved_state))
   \<and> currentPosition (fst (navigateToView start_only ''a'' None
                 (fst (returnToLast start_only moved_state)))) = (2, 0)
   \<and> currentPosition moved_state = (1, 0)"
  by (simp add: visited_left_def stale_visit_def moved_state_def scenario_tracks_def start_only_def
        run_defs eval_defs)

section \<open>The journey stack is never empty\<close>

text \<open>
  C9. In every reachable state the journey stack is not empty. \<open>navigateToView\<close> keeps
  it or appends the id; \<open>returnToLast\<close> keeps it or, only when it has at least two
  entries, drops exactly its last entry; registering and deregistering tracks keep it.
\<close>

theorem journeyStack_never_empty:
  assumes "reachable defaultTracks s"
  shows "journeyStack s \<noteq> []
    \<and> (journeyStack (fst (navigateToView defaultTracks i ctx s)) = journeyStack s
        \<or> journeyStack (fst (navigateToView defaultTracks i ctx s)) = journeyStack s @ [i])
    \<and> (journeyStack (fst (returnToLast defaultTracks s)) = journeyStack s
        \<or> (2 \<le> length (journeyStack s)
            \<and> length (journeyStack (fst (returnToLast defaultTracks s))) + 1
                = length (journeyStack s)
            \<and> journeyStack (fst (returnToLast defaultTracks s)) = butlast (journeyStack s)))
    \<and> journeyStack (fst (registerNewTracks owner m anchor s)) = journeyStack s
    \<and> journeyStack (fst (deregisterTracks maybe_owner s)) = journeyStack s"
  using reachable_nonempty [OF assms] navigateToView_stack [of defaultTracks i ctx s]
    returnToLast_stack [of defaultTracks s]
  by (auto simp: registerNewTracks_stack deregisterTracks_stack)

theorem journeyStack_never_empty_witness:
  "reachable scenario_tracks
     (fst (returnToLast scenario_tracks (fst (navigateToView scenario_tracks ''left'' None
        (initial :: (unit, unit) railway)))))
   \<and> journeyStack (fst (returnToLast scenario_tracks (fst (navigateToView scenario_tracks ''left'' None
        (initial :: (unit, unit) railway))))) = [''start'']
   \<and> journeyStack (fst (returnToLast scenario_tracks (fst (navigateToView scenario_tracks ''left'' None
        (initial :: (unit, unit) railway))))) \<noteq> []"
proof -
  have r: "reachable scenario_tracks
     (fst (returnToLast scenario_tracks (fst (navigateToView scenario_tracks ''left'' None
        (initial :: (unit, unit) railway)))))"
    by (intro reach_return reach_navigate reach_initial)
  have e: "journeyStack (fst (returnToLast scenario_tracks (fst (navigateToView scenario_tracks ''left'' None
        (initial :: (unit, unit) railway))))) = [''start'']"
    by (simp add: scenario_tracks_def run_defs eval_defs)
  from journeyStack_never_empty [OF r] r e show ?thesis by blast
qed

end
